theory Spec2Isabelle
  imports Main
begin

section \<open>AMP admission monitor: the poll-detect-notify loop of amp_monitor_fixed.py\<close>

text \<open>
  The script polls one web page, derives a FULL/OPEN status from its text and posts to a
  webhook when the status changes. The embedding follows the three functions of the
  script: \<open>send_discord_alert\<close>, \<open>check_website\<close> and \<open>main\<close>.

  What the network does is not decided by the script, so it is an input of the model:
  for every call of the script that talks to the network, a \<open>net\<close> value says how the
  certificate-verified attempt ends and how the attempt without verification would end
  if it were made. Every function returns, next to its result, the list of requests it
  issued, in order. A Python exception is a value of type \<open>exn\<close>; a function that lets
  an exception escape to its caller returns \<open>Inl\<close> of it.

  Two things the script takes from libraries are parameters of the model: the markup
  stripping of BeautifulSoup (\<open>get_text\<close>) and the upper-case forms that \<open>str.upper\<close>
  gives to the characters outside ASCII (\<open>unicode\<close>). Every result holds for all values
  of both.

  Printing and the sleep between two cycles are left out: they issue no request and
  touch neither the poll result nor the state of the monitor. The block under
  \<open>__main__\<close> (lines 157-169), which reports the end of the process, runs after
  \<open>main\<close> has been left and is not part of the model.
\<close>

subsection \<open>Exceptions, responses and the network\<close>

text \<open>
  The script tells exceptions apart only by its \<open>except\<close> clauses: a bare \<open>except:\<close>
  takes every exception, \<open>except Exception\<close> takes the instances of \<open>Exception\<close> and lets
  \<open>KeyboardInterrupt\<close> and \<open>SystemExit\<close> pass (they derive from \<open>BaseException\<close> only).
  \<open>HTTPError\<close> carries the status code it was raised for; \<open>SSLError\<close>,
  \<open>ConnectionError\<close> and \<open>Timeout\<close> are the transport errors of the requests library.
\<close>

datatype exn =
    SSLError
  | ConnectionError
  | Timeout
  | HTTPError int
  | OtherException string
  | KeyboardInterrupt
  | SystemExit

fun is_Exception :: "exn \<Rightarrow> bool" where
  "is_Exception KeyboardInterrupt = False"
| "is_Exception SystemExit = False"
| "is_Exception _ = True"

text \<open>
  A Python string is a sequence of Unicode code points; a literal of the script is written
  as an Isabelle string and read by \<open>lit\<close>.
\<close>

type_synonym str = "nat list"

definition lit :: "string \<Rightarrow> str" where
  "lit s = map of_char s"

record response =
  status_code :: int
  resp_text :: str

type_synonym attempt = "exn + response"

record net =
  verified :: attempt
  unverified :: attempt

text \<open>
  The payload of a webhook post is determined by the message. The texts of the script's
  messages are not ASCII and embed the time of day; a message is modelled by the place
  of \<open>main\<close> that builds it: the notice of line 107 and the alerts of lines 131 and 142.
\<close>

datatype message =
    MonitorActive
  | AlertOpen
  | AlertFull

datatype request = Get bool | Post bool message

type_synonym 'a io = "request list \<times> (exn + 'a)"

text \<open>The answer of the network to a request of a call, read off the call's \<open>net\<close>.\<close>

fun verify_of :: "request \<Rightarrow> bool" where
  "verify_of (Get v) = v"
| "verify_of (Post v m) = v"

definition answer :: "net \<Rightarrow> request \<Rightarrow> attempt" where
  "answer n rq = (if verify_of rq then verified n else unverified n)"

subsection \<open>send_discord_alert (lines 25-50)\<close>

text \<open>
  Lines 34-39: the post with verification, and on any exception whatsoever (bare
  \<open>except:\<close>) the post without. An exception of the second post escapes this block.
\<close>

definition post_with_fallback :: "message \<Rightarrow> net \<Rightarrow> response io" where
  "post_with_fallback msg n =
     (case verified n of
        Inr response \<Rightarrow> ([Post True msg], Inr response)
      | Inl _ \<Rightarrow> ([Post True msg, Post False msg], unverified n))"

text \<open>
  Lines 27-50: status 204 gives \<open>True\<close>, any other status \<open>False\<close>; the outer handler
  \<open>except Exception\<close> turns an instance of \<open>Exception\<close> into \<open>False\<close> and lets the rest
  escape.
\<close>

definition send_discord_alert :: "message \<Rightarrow> net \<Rightarrow> bool io" where
  "send_discord_alert msg n =
     (case post_with_fallback msg n of
        (reqs, Inr response) \<Rightarrow>
          (reqs, Inr (if status_code response = 204 then True else False))
      | (reqs, Inl e) \<Rightarrow>
          (reqs, if is_Exception e then Inr False else Inl e))"

subsection \<open>check_website (lines 52-83)\<close>

text \<open>
  \<open>str.upper\<close> replaces every character by its upper-case form and joins the results
  (a form can be longer than one character). On the ASCII characters the form is known:
  a-z go to A-Z and every other one stays. For the characters from code point 128 on the
  form is an entry of the Unicode tables of the Python runtime, which are not part of the
  repository: they are the parameter \<open>unicode\<close>.
\<close>

definition upper_char :: "(nat \<Rightarrow> str) \<Rightarrow> nat \<Rightarrow> str" where
  "upper_char unicode c =
     (if c < 128 then (if 97 \<le> c \<and> c \<le> 122 then [c - 32] else [c])
      else unicode c)"

definition upper :: "(nat \<Rightarrow> str) \<Rightarrow> str \<Rightarrow> str" where
  "upper unicode s = concat (map (upper_char unicode) s)"

text \<open>Python's \<open>sub in s\<close> on strings: \<open>sub\<close> occurs in \<open>s\<close> as a contiguous block.\<close>

fun startswith :: "str \<Rightarrow> str \<Rightarrow> bool" where
  "startswith s [] = True"
| "startswith [] (p # ps) = False"
| "startswith (c # cs) (p # ps) = (c = p \<and> startswith cs ps)"

fun contains :: "str \<Rightarrow> str \<Rightarrow> bool" where
  "contains sub [] = (sub = [])"
| "contains sub (c # cs) = (startswith (c # cs) sub \<or> contains sub cs)"

text \<open>
  The dictionary that \<open>check_website\<close> returns has the keys \<open>success\<close>, \<open>is_full\<close>,
  \<open>is_open\<close>, \<open>page_text\<close> when the poll succeeded and \<open>success\<close>, \<open>error\<close> when it did
  not; \<open>error\<close> is the text of the exception, kept here as the exception.
\<close>

datatype poll_result =
    Ok (is_full: bool) (is_open: bool) (page_text: str)
  | Failed (error: exn)

fun success :: "poll_result \<Rightarrow> bool" where
  "success (Ok f opn t) = True"
| "success (Failed e) = False"

text \<open>
  Lines 69-80, on the text that \<open>soup.get_text()\<close> returned: upper-casing, the two
  keyword searches and the snippet of 300 characters.
\<close>

definition status_indicators :: "(nat \<Rightarrow> str) \<Rightarrow> str \<Rightarrow> poll_result" where
  "status_indicators unicode plain =
     (let page_text = upper unicode plain;
          is_full = contains (lit ''FULL'') page_text;
          is_open = list_ex (\<lambda>keyword. contains keyword page_text)
                      [lit ''OPEN'', lit ''AVAILABLE'', lit ''ACCEPTING'']
      in Ok is_full is_open (take 300 page_text))"

text \<open>
  \<open>Response.raise_for_status\<close> of the requests library: it raises \<open>HTTPError\<close> for a
  client error (400-499) and for a server error (500-599), and returns for every other
  status code.
\<close>

definition raise_for_status :: "response \<Rightarrow> exn + unit" where
  "raise_for_status response =
     (if 400 \<le> status_code response \<and> status_code response < 600
      then Inl (HTTPError (status_code response)) else Inr ())"

text \<open>Lines 60-63: the same two attempts as in \<open>post_with_fallback\<close>, for the GET.\<close>

definition get_with_fallback :: "net \<Rightarrow> response io" where
  "get_with_fallback n =
     (case verified n of
        Inr response \<Rightarrow> ([Get True], Inr response)
      | Inl _ \<Rightarrow> ([Get True, Get False], unverified n))"

text \<open>
  Lines 54-83. The markup stripping of BeautifulSoup is the parameter \<open>get_text\<close>,
  next to the upper-casing table \<open>unicode\<close>. The
  handler \<open>except Exception\<close> of line 81 makes a failed poll of every instance of
  \<open>Exception\<close>, the \<open>HTTPError\<close> of \<open>raise_for_status\<close> among them.
\<close>

definition check_website :: "(nat \<Rightarrow> str) \<Rightarrow> (str \<Rightarrow> str) \<Rightarrow> net \<Rightarrow> poll_result io" where
  "check_website unicode get_text n =
     (case get_with_fallback n of
        (reqs, Inr response) \<Rightarrow>
          (case raise_for_status response of
             Inl e \<Rightarrow> (reqs, Inr (Failed e))
           | Inr _ \<Rightarrow> (reqs, Inr (status_indicators unicode (get_text (resp_text response)))))
      | (reqs, Inl e) \<Rightarrow>
          (reqs, if is_Exception e then Inr (Failed e) else Inl e))"

subsection \<open>main (lines 85-155)\<close>

text \<open>
  \<open>previous_status\<close> is \<open>None\<close>, \<open>'FULL'\<close> or \<open>'OPEN'\<close>; the spec calls \<open>None\<close> UNKNOWN.
\<close>

datatype status = FULL | OPEN

record monitor_state =
  previous_status :: "status option"
  check_count :: int

text \<open>What the network does during one pass of the script through both of its calls.\<close>

record world =
  website :: net
  webhook :: net

text \<open>
  Lines 94-117: the diagnostic poll, whose result is only printed, the fixed notice,
  and the initial state of the loop.
\<close>

definition startup :: "(nat \<Rightarrow> str) \<Rightarrow> (str \<Rightarrow> str) \<Rightarrow> world \<Rightarrow> monitor_state io" where
  "startup unicode get_text w =
     (case check_website unicode get_text (website w) of
        (reqs, Inl e) \<Rightarrow> (reqs, Inl e)
      | (reqs, Inr test_result) \<Rightarrow>
          (case send_discord_alert MonitorActive (webhook w) of
             (reqs', Inl e) \<Rightarrow> (reqs @ reqs', Inl e)
           | (reqs', Inr delivered) \<Rightarrow>
               (reqs @ reqs', Inr \<lparr>previous_status = None, check_count = 0\<rparr>)))"

text \<open>Lines 126-149: the branch of a successful poll.\<close>

definition on_success :: "monitor_state \<Rightarrow> bool \<Rightarrow> net \<Rightarrow> monitor_state io" where
  "on_success s full n =
     (let current_status = (if full then FULL else OPEN) in
      if previous_status s = Some FULL \<and> \<not> full then
        (case send_discord_alert AlertOpen n of
           (reqs, Inl e) \<Rightarrow> (reqs, Inl e)
         | (reqs, Inr delivered) \<Rightarrow>
             (reqs, Inr (s\<lparr>previous_status := Some current_status\<rparr>)))
      else if previous_status s = Some OPEN \<and> full then
        (case send_discord_alert AlertFull n of
           (reqs, Inl e) \<Rightarrow> (reqs, Inl e)
         | (reqs, Inr delivered) \<Rightarrow>
             (reqs, Inr (s\<lparr>previous_status := Some current_status\<rparr>)))
      else ([], Inr (s\<lparr>previous_status := Some current_status\<rparr>)))"

text \<open>Lines 120-151: one pass through the body of \<open>while True\<close>.\<close>

definition cycle :: "(nat \<Rightarrow> str) \<Rightarrow> (str \<Rightarrow> str) \<Rightarrow> monitor_state \<Rightarrow> world \<Rightarrow> monitor_state io" where
  "cycle unicode get_text s w =
     (let s1 = s\<lparr>check_count := check_count s + 1\<rparr> in
      case check_website unicode get_text (website w) of
        (reqs, Inl e) \<Rightarrow> (reqs, Inl e)
      | (reqs, Inr result) \<Rightarrow>
          (if success result then
             (case on_success s1 (is_full result) (webhook w) of
                (reqs', r) \<Rightarrow> (reqs @ reqs', r))
           else (reqs, Inr s1)))"

text \<open>
  The loop never ends by itself. \<open>monitor_loop\<close> runs it over the worlds of its first
  cycles and returns the state after them, or the exception that ended it earlier.
\<close>

fun monitor_loop ::
  "(nat \<Rightarrow> str) \<Rightarrow> (str \<Rightarrow> str) \<Rightarrow> monitor_state \<Rightarrow> world list \<Rightarrow> monitor_state io" where
  "monitor_loop unicode get_text s [] = ([], Inr s)"
| "monitor_loop unicode get_text s (w # ws) =
     (case cycle unicode get_text s w of
        (reqs, Inl e) \<Rightarrow> (reqs, Inl e)
      | (reqs, Inr s') \<Rightarrow>
          (case monitor_loop unicode get_text s' ws of (reqs', r) \<Rightarrow> (reqs @ reqs', r)))"

definition main :: "(nat \<Rightarrow> str) \<Rightarrow> (str \<Rightarrow> str) \<Rightarrow> world \<Rightarrow> world list \<Rightarrow> monitor_state io" where
  "main unicode get_text w0 ws =
     (case startup unicode get_text w0 of
        (reqs, Inl e) \<Rightarrow> (reqs, Inl e)
      | (reqs, Inr s) \<Rightarrow>
          (case monitor_loop unicode get_text s ws of (reqs', r) \<Rightarrow> (reqs @ reqs', r)))"

text \<open>
  The messages \<open>send_discord_alert\<close> was called with: each call begins with the post
  that verifies the certificate.
\<close>

fun notified :: "request list \<Rightarrow> message list" where
  "notified [] = []"
| "notified (Post True m # rs) = m # notified rs"
| "notified (r # rs) = notified rs"

subsection \<open>Containing a keyword, ignoring case\<close>





text \<open>
  Four entries of the upper-casing table of Unicode: U+0131 to I, U+FB00 to FF, U+00DF to
  SS and U+00E9 to U+00C9. The sample leaves every other character alone, so it stands
  for the table of the Python runtime on text whose characters from code point 128 on
  are among these four.
\<close>

definition unicode_sample :: "nat \<Rightarrow> str" where
  "unicode_sample c =
     (if c = 305 then [73] else if c = 64256 then [70, 70]
      else if c = 223 then [83, 83] else if c = 233 then [201] else [c])"

subsection \<open>Failed polls and sample inputs\<close>

text \<open>A cycle's poll fails when \<open>check_website\<close> returns the dictionary without success.\<close>

definition poll_failed :: "(nat \<Rightarrow> str) \<Rightarrow> (str \<Rightarrow> str) \<Rightarrow> world \<Rightarrow> bool" where
  "poll_failed unicode get_text w =
     (case snd (check_website unicode get_text (website w)) of
        Inr (Failed e) \<Rightarrow> True | _ \<Rightarrow> False)"

text \<open>
  Concrete networks for instantiating the results: a server that answers the verified
  request with a status code and a body, a server that cannot be reached, and the three
  worlds of a cycle that sees the page full, sees it open, or cannot fetch it, with a
  webhook that accepts every post.
\<close>

definition answering :: "int \<Rightarrow> str \<Rightarrow> net" where
  "answering code body =
     \<lparr>verified = Inr \<lparr>status_code = code, resp_text = body\<rparr>, unverified = Inl Timeout\<rparr>"

definition unreachable :: net where
  "unreachable = \<lparr>verified = Inl SSLError, unverified = Inl Timeout\<rparr>"

definition world_full :: world where
  "world_full = \<lparr>website = answering 200 (lit ''Amp Free is full for now''),
                  webhook = answering 204 []\<rparr>"

definition world_open :: world where
  "world_open = \<lparr>website = answering 200 (lit ''Amp Free is open again''),
                  webhook = answering 204 []\<rparr>"

definition world_down :: world where
  "world_down = \<lparr>website = unreachable, webhook = answering 204 []\<rparr>"

section \<open>Requests issued and results returned\<close>

lemma notified_append: "notified (xs @ ys) = notified xs @ notified ys"
  by (induction xs rule: notified.induct) simp_all

lemma fst_get_with_fallback:
  "fst (get_with_fallback n) = (if isl (verified n) then [Get True, Get False] else [Get True])"
  by (simp add: get_with_fallback_def split: sum.splits)


lemma fst_check_website: "fst (check_website unicode get_text n) = fst (get_with_fallback n)"
  by (simp add: check_website_def split: prod.splits sum.splits)


lemma fst_post_with_fallback:
  "fst (post_with_fallback msg n) =
     (if isl (verified n) then [Post True msg, Post False msg] else [Post True msg])"
  by (simp add: post_with_fallback_def split: sum.splits)

lemma fst_send_discord_alert: "fst (send_discord_alert msg n) = fst (post_with_fallback msg n)"
  by (simp add: send_discord_alert_def split: prod.splits sum.splits)

lemma snd_send_discord_alert:
  "snd (send_discord_alert msg n) =
     (case verified n of
        Inr r \<Rightarrow> Inr (status_code r = 204)
      | Inl e0 \<Rightarrow>
          (case unverified n of
             Inr r \<Rightarrow> Inr (status_code r = 204)
           | Inl e \<Rightarrow> if is_Exception e then Inr False else Inl e))"
  by (simp add: send_discord_alert_def post_with_fallback_def split: sum.splits)

lemma notified_check_website: "notified (fst (check_website unicode get_text n)) = []"
  by (simp add: fst_check_website fst_get_with_fallback)

lemma notified_send_discord_alert: "notified (fst (send_discord_alert msg n)) = [msg]"
  by (simp add: fst_send_discord_alert fst_post_with_fallback)

section \<open>The fallback without certificate verification\<close>

text \<open>
  C9. A call of \<open>check_website\<close> whose verified attempt raises issues exactly one more
  request, the one without verification, and nothing after it; a call whose verified
  attempt returns a response issues that one request only. There is no third request in
  any call.
\<close>

theorem fetch_single_fallback:
  "fst (check_website unicode get_text n) =
     (if isl (verified n) then [Get True, Get False] else [Get True])"
  by (simp add: fst_check_website fst_get_with_fallback)

theorem fetch_single_fallback_witness:
  "fst (check_website unicode_sample (\<lambda>t. t) \<lparr>verified = Inl Timeout, unverified = Inl Timeout\<rparr>)
     = [Get True, Get False]"
  using fetch_single_fallback [of unicode_sample "\<lambda>t. t" "\<lparr>verified = Inl Timeout, unverified = Inl Timeout\<rparr>"]
  by simp

text \<open>
  C10. Whatever exception the verified attempt raises, of any kind (an interrupt from
  the keyboard as much as a certificate failure), both \<open>check_website\<close> and
  \<open>send_discord_alert\<close> go on to issue the request without verification.
\<close>

theorem fallback_on_any_exception:
  "verified n = Inl e \<Longrightarrow>
     fst (check_website unicode get_text n) = [Get True, Get False] \<and>
     fst (send_discord_alert msg n) = [Post True msg, Post False msg]"
  by (simp add: fst_check_website fst_get_with_fallback fst_send_discord_alert
      fst_post_with_fallback)

theorem fallback_on_any_exception_witness:
  "fst (check_website unicode_sample (\<lambda>t. t)
          \<lparr>verified = Inl KeyboardInterrupt, unverified = Inl Timeout\<rparr>)
     = [Get True, Get False] \<and>
   fst (send_discord_alert AlertFull
          \<lparr>verified = Inl KeyboardInterrupt, unverified = Inl Timeout\<rparr>)
     = [Post True AlertFull, Post False AlertFull]"
  using fallback_on_any_exception [of
      "\<lparr>verified = Inl KeyboardInterrupt, unverified = Inl Timeout\<rparr>" KeyboardInterrupt
      unicode_sample "\<lambda>t. t" AlertFull]
  by simp

section \<open>The result of send_discord_alert\<close>

text \<open>
  C3, as stated, fails: when the verified post raises and the post without verification
  is then interrupted from the keyboard, the interrupt is not an instance of
  \<open>Exception\<close>, the handler of line 48 does not take it, and it reaches the caller.
\<close>

theorem send_discord_alert_raises_counterexample:
  "snd (send_discord_alert MonitorActive
     \<lparr>verified = Inl SSLError, unverified = Inl KeyboardInterrupt\<rparr>) = Inl KeyboardInterrupt"
  by (simp add: send_discord_alert_def post_with_fallback_def)

text \<open>
  C3, amended. \<open>send_discord_alert\<close> returns \<open>True\<close> exactly when a post it issued was
  answered with status 204. It raises to its caller exactly when the verified post raised
  and the post without verification raised an exception that is not an instance of
  \<open>Exception\<close> (\<open>KeyboardInterrupt\<close>, \<open>SystemExit\<close>). In every other case (another
  status, or an instance of \<open>Exception\<close> raised by the post without verification) it
  returns \<open>False\<close>.
\<close>

theorem send_discord_alert_result:
  "(snd (send_discord_alert msg n) = Inr True \<longleftrightarrow>
      (\<exists>rq\<in>set (fst (send_discord_alert msg n)).
         \<exists>r. answer n rq = Inr r \<and> status_code r = 204)) \<and>
   (snd (send_discord_alert msg n) = Inl e \<longleftrightarrow>
      isl (verified n) \<and> unverified n = Inl e \<and> \<not> is_Exception e) \<and>
   (snd (send_discord_alert msg n) = Inr False \<longleftrightarrow>
      \<not> (\<exists>rq\<in>set (fst (send_discord_alert msg n)).
           \<exists>r. answer n rq = Inr r \<and> status_code r = 204) \<and>
      \<not> (isl (verified n) \<and> (\<exists>e'. unverified n = Inl e' \<and> \<not> is_Exception e')))"
proof (cases "verified n")
  case (Inr r)
  then show ?thesis
    by (simp add: snd_send_discord_alert fst_send_discord_alert fst_post_with_fallback
        answer_def)
next
  case (Inl e0)
  then show ?thesis
    by (cases "unverified n")
       (auto simp: snd_send_discord_alert fst_send_discord_alert fst_post_with_fallback
        answer_def)
qed

theorem send_discord_alert_result_witness:
  "snd (send_discord_alert AlertOpen
          \<lparr>verified = Inl SSLError,
           unverified = Inr \<lparr>status_code = 204, resp_text = []\<rparr>\<rparr>) = Inr True \<and>
   snd (send_discord_alert AlertOpen
          \<lparr>verified = Inl SSLError, unverified = Inl ConnectionError\<rparr>) = Inr False \<and>
   snd (send_discord_alert AlertOpen
          \<lparr>verified = Inr \<lparr>status_code = 200, resp_text = []\<rparr>,
           unverified = Inl ConnectionError\<rparr>) = Inr False"
  using
    send_discord_alert_result [of AlertOpen
      "\<lparr>verified = Inl SSLError,
        unverified = Inr \<lparr>status_code = 204, resp_text = []\<rparr>\<rparr>" SSLError]
    send_discord_alert_result [of AlertOpen
      "\<lparr>verified = Inl SSLError, unverified = Inl ConnectionError\<rparr>" SSLError]
    send_discord_alert_result [of AlertOpen
      "\<lparr>verified = Inr \<lparr>status_code = 200, resp_text = []\<rparr>,
        unverified = Inl ConnectionError\<rparr>" SSLError]
  by (simp add: fst_send_discord_alert fst_post_with_fallback answer_def)

section \<open>Status codes that fail the poll\<close>




section \<open>Keyword extraction\<close>





















section \<open>The monitoring loop\<close>

subsection \<open>One cycle\<close>

lemma on_success_result:
  "snd (on_success s full n) = Inr s' \<Longrightarrow>
     s' = s\<lparr>previous_status := Some (if full then FULL else OPEN)\<rparr>"
  by (auto simp: on_success_def Let_def split: if_splits prod.splits sum.splits)

lemma notified_on_success:
  "notified (fst (on_success s full n)) =
     (if previous_status s = Some FULL \<and> \<not> full then [AlertOpen]
      else if previous_status s = Some OPEN \<and> full then [AlertFull] else [])"
proof -
  have "notified (fst (case send_discord_alert msg n of
           (reqs, Inl e) \<Rightarrow> (reqs, Inl e)
         | (reqs, Inr delivered) \<Rightarrow> (reqs, Inr t))) = [msg]" for msg and t :: monitor_state
    using notified_send_discord_alert [of msg n]
    by (cases "send_discord_alert msg n") (auto split: sum.splits)
  then show ?thesis by (simp add: on_success_def Let_def)
qed

lemma cycle_failed:
  assumes "snd (check_website unicode get_text (website w)) = Inr (Failed e)"
  shows "cycle unicode get_text s w =
     (fst (check_website unicode get_text (website w)), Inr (s\<lparr>check_count := check_count s + 1\<rparr>))"
  using assms
  by (cases "check_website unicode get_text (website w)")
     (simp add: cycle_def Let_def split: prod.splits)

lemma cycle_ok:
  assumes "snd (check_website unicode get_text (website w)) = Inr (Ok full opn snippet)"
  shows "cycle unicode get_text s w =
     (fst (check_website unicode get_text (website w)) @
        fst (on_success (s\<lparr>check_count := check_count s + 1\<rparr>) full (webhook w)),
      snd (on_success (s\<lparr>check_count := check_count s + 1\<rparr>) full (webhook w)))"
  using assms
  by (cases "check_website unicode get_text (website w)")
     (simp add: cycle_def Let_def split: prod.splits)

lemma cycle_raised:
  assumes "snd (check_website unicode get_text (website w)) = Inl e"
  shows "cycle unicode get_text s w = (fst (check_website unicode get_text (website w)), Inl e)"
  using assms
  by (cases "check_website unicode get_text (website w)")
     (simp add: cycle_def Let_def split: prod.splits)

lemma notified_cycle:
  "notified (fst (cycle unicode get_text s w)) =
     (case snd (check_website unicode get_text (website w)) of
        Inr (Ok full opn snippet) \<Rightarrow>
          (if previous_status s = Some FULL \<and> \<not> full then [AlertOpen]
           else if previous_status s = Some OPEN \<and> full then [AlertFull] else [])
      | _ \<Rightarrow> [])"
proof (cases "snd (check_website unicode get_text (website w))")
  case (Inl e)
  then show ?thesis
    by (simp add: cycle_raised notified_check_website)
next
  case (Inr result)
  then show ?thesis
    by (cases result)
       (simp_all add: cycle_ok cycle_failed notified_append notified_check_website
          notified_on_success)
qed

lemma cycle_state:
  assumes "snd (cycle unicode get_text s w) = Inr s'"
  shows "check_count s' = check_count s + 1 \<and>
         previous_status s' =
           (case snd (check_website unicode get_text (website w)) of
              Inr (Ok full opn snippet) \<Rightarrow> Some (if full then FULL else OPEN)
            | _ \<Rightarrow> previous_status s)"
proof (cases "snd (check_website unicode get_text (website w))")
  case (Inl e)
  with assms show ?thesis by (simp add: cycle_raised)
next
  case (Inr result)
  show ?thesis
  proof (cases result)
    case (Failed e)
    with Inr assms show ?thesis by (auto simp: cycle_failed)
  next
    case (Ok full opn snippet)
    with Inr assms
    have "snd (on_success (s\<lparr>check_count := check_count s + 1\<rparr>) full (webhook w)) = Inr s'"
      by (simp add: cycle_ok)
    from on_success_result [OF this] Inr Ok show ?thesis by simp
  qed
qed

text \<open>
  C1. In every cycle, \<open>send_discord_alert\<close> is called exactly when the poll succeeded,
  \<open>previous_status\<close> is not \<open>None\<close>, and the status derived from \<open>is_full\<close> differs from
  \<open>previous_status\<close>; it is called at most once.
\<close>

theorem transition_alert_iff:
  "(notified (fst (cycle unicode get_text s w)) \<noteq> [] \<longleftrightarrow>
     (\<exists>full opn snippet.
        snd (check_website unicode get_text (website w)) = Inr (Ok full opn snippet) \<and>
        previous_status s \<noteq> None \<and>
        previous_status s \<noteq> Some (if full then FULL else OPEN))) \<and>
   length (notified (fst (cycle unicode get_text s w))) \<le> 1"
proof (cases "snd (check_website unicode get_text (website w))")
  case (Inl e)
  then show ?thesis by (simp add: notified_cycle)
next
  case (Inr result)
  show ?thesis
  proof (cases result)
    case (Failed e)
    with Inr show ?thesis by (simp add: notified_cycle)
  next
    case (Ok full opn snippet)
    with Inr show ?thesis
      by (cases "previous_status s"; cases full)
         (auto simp: notified_cycle intro: status.exhaust)
  qed
qed

theorem transition_alert_iff_witness:
  "notified (fst (cycle unicode_sample (\<lambda>t. t) \<lparr>previous_status = Some FULL, check_count = 7\<rparr>
     world_open)) \<noteq> [] \<and>
   notified (fst (cycle unicode_sample (\<lambda>t. t) \<lparr>previous_status = None, check_count = 0\<rparr>
     world_open)) = [] \<and>
   notified (fst (cycle unicode_sample (\<lambda>t. t) \<lparr>previous_status = Some FULL, check_count = 7\<rparr>
     world_down)) = []"
proof -
  have opn: "snd (check_website unicode_sample (\<lambda>t. t) (website world_open)) =
      Inr (Ok False True (lit ''AMP FREE IS OPEN AGAIN''))"
    by code_simp
  have down: "snd (check_website unicode_sample (\<lambda>t. t) (website world_down)) = Inr (Failed Timeout)"
    by code_simp
  from opn down
    transition_alert_iff [of unicode_sample "\<lambda>t. t" "\<lparr>previous_status = Some FULL, check_count = 7\<rparr>"
      world_open]
    transition_alert_iff [of unicode_sample "\<lambda>t. t" "\<lparr>previous_status = None, check_count = 0\<rparr>"
      world_open]
    transition_alert_iff [of unicode_sample "\<lambda>t. t" "\<lparr>previous_status = Some FULL, check_count = 7\<rparr>"
      world_down]
  show ?thesis by auto
qed

text \<open>
  C5, as stated, fails: line 120 increments \<open>check_count\<close> before the poll, so a cycle
  whose poll fails leaves the state changed.
\<close>

theorem failed_poll_changes_state_counterexample:
  "snd (check_website unicode_sample (\<lambda>t. t) (website world_down)) = Inr (Failed Timeout) \<and>
   snd (cycle unicode_sample (\<lambda>t. t) \<lparr>previous_status = Some FULL, check_count = 3\<rparr> world_down) =
     Inr \<lparr>previous_status = Some FULL, check_count = 4\<rparr>"
  by code_simp

text \<open>
  C5, amended. A cycle that completes increments \<open>check_count\<close> by one, whether its poll
  succeeded or failed. \<open>previous_status\<close> is assigned the derived status by a successful
  poll and is unchanged by a failed one.
\<close>

theorem monitor_state_update:
  assumes "snd (cycle unicode get_text s w) = Inr s'"
  shows "check_count s' = check_count s + 1 \<and>
         previous_status s' =
           (case snd (check_website unicode get_text (website w)) of
              Inr (Ok full opn snippet) \<Rightarrow> Some (if full then FULL else OPEN)
            | _ \<Rightarrow> previous_status s)"
  using assms by (rule cycle_state)

theorem monitor_state_update_witness:
  "snd (cycle unicode_sample (\<lambda>t. t) \<lparr>previous_status = Some FULL, check_count = 3\<rparr> world_open) =
     Inr \<lparr>previous_status = Some OPEN, check_count = 4\<rparr> \<and>
   check_count \<lparr>previous_status = Some OPEN, check_count = 4\<rparr> = 3 + 1"
proof -
  have c: "snd (cycle unicode_sample (\<lambda>t. t) \<lparr>previous_status = Some FULL, check_count = 3\<rparr> world_open) =
     Inr \<lparr>previous_status = Some OPEN, check_count = 4\<rparr>"
    by code_simp
  from monitor_state_update [OF c] c show ?thesis by simp
qed

subsection \<open>Startup\<close>

lemma startup_state:
  "snd (startup unicode get_text w) = Inr s \<Longrightarrow> s = \<lparr>previous_status = None, check_count = 0\<rparr>"
  by (auto simp: startup_def split: prod.splits sum.splits)

lemma notified_startup:
  "snd (check_website unicode get_text (website w)) = Inr r \<Longrightarrow>
     notified (fst (startup unicode get_text w)) = [MonitorActive]"
  using notified_send_discord_alert [of MonitorActive "webhook w"]
    notified_check_website [of unicode get_text "website w"]
  by (cases "check_website unicode get_text (website w)";
      cases "send_discord_alert MonitorActive (webhook w)")
     (auto simp: startup_def notified_append split: sum.splits)

text \<open>
  C6, as stated, fails: line 116 sets \<open>previous_status\<close> to \<open>None\<close> after the diagnostic
  poll, whatever the poll found. Here the diagnostic poll succeeds and derives FULL, and
  the loop is entered with \<open>None\<close>.
\<close>

theorem startup_discards_diagnostic_poll_counterexample:
  "snd (check_website unicode_sample (\<lambda>t. t) (website world_full)) =
     Inr (Ok True False (lit ''AMP FREE IS FULL FOR NOW'')) \<and>
   snd (startup unicode_sample (\<lambda>t. t) world_full) = Inr \<lparr>previous_status = None, check_count = 0\<rparr>"
  by code_simp

text \<open>
  C6, amended. The result of the startup diagnostic poll is only logged: whenever startup
  reaches the loop, \<open>previous_status\<close> is \<open>None\<close> (UNKNOWN) and \<open>check_count\<close> is 0,
  whether the poll succeeded or failed and whatever status it derived; the poll is not
  used for transition detection in any way.
\<close>

theorem startup_leaves_previous_status_unknown:
  assumes "snd (startup unicode get_text w) = Inr s"
  shows "s = \<lparr>previous_status = None, check_count = 0\<rparr>"
  using assms by (rule startup_state)

theorem startup_leaves_previous_status_unknown_witness:
  "snd (startup unicode_sample (\<lambda>t. t) world_open) = Inr \<lparr>previous_status = None, check_count = 0\<rparr> \<and>
   previous_status \<lparr>previous_status = None, check_count = 0\<rparr> = None"
proof -
  have c: "snd (startup unicode_sample (\<lambda>t. t) world_open) =
      Inr \<lparr>previous_status = None, check_count = 0\<rparr>"
    by code_simp
  from startup_leaves_previous_status_unknown [OF c] c show ?thesis by simp
qed

subsection \<open>Runs of the loop\<close>

lemma poll_failedD:
  "poll_failed unicode get_text w \<Longrightarrow> \<exists>e. snd (check_website unicode get_text (website w)) = Inr (Failed e)"
  by (auto simp: poll_failed_def split: sum.splits poll_result.splits)

text \<open>Failed polls send nothing and only advance the counter.\<close>

lemma monitor_loop_failed:
  assumes "list_all (poll_failed unicode get_text) ws"
  shows "notified (fst (monitor_loop unicode get_text s ws)) = [] \<and>
         snd (monitor_loop unicode get_text s ws) =
           Inr (s\<lparr>check_count := check_count s + int (length ws)\<rparr>)"
  using assms
proof (induction ws arbitrary: s)
  case Nil
  then show ?case by simp
next
  case (Cons w ws)
  then obtain e where e: "snd (check_website unicode get_text (website w)) = Inr (Failed e)"
    by (auto dest: poll_failedD)
  from Cons.prems have "list_all (poll_failed unicode get_text) ws" by simp
  from Cons.IH [OF this, of "s\<lparr>check_count := check_count s + 1\<rparr>"]
  show ?case
    by (cases "monitor_loop unicode get_text (s\<lparr>check_count := check_count s + 1\<rparr>) ws")
       (simp add: cycle_failed [OF e] notified_append notified_check_website)
qed

lemma monitor_loop_append:
  "snd (monitor_loop unicode get_text s ws) = Inr s' \<Longrightarrow>
     monitor_loop unicode get_text s (ws @ ws') =
       (fst (monitor_loop unicode get_text s ws) @ fst (monitor_loop unicode get_text s' ws'),
        snd (monitor_loop unicode get_text s' ws'))"
proof (induction ws arbitrary: s)
  case Nil
  then show ?case by simp
next
  case (Cons w ws)
  show ?case
  proof (cases "cycle unicode get_text s w")
    case (Pair reqs r)
    show ?thesis
    proof (cases r)
      case (Inl e)
      with Pair Cons.prems show ?thesis by simp
    next
      case (Inr s1)
      with Pair Cons.prems have "snd (monitor_loop unicode get_text s1 ws) = Inr s'"
        by (simp split: prod.splits)
      from Cons.IH [OF this] Pair Inr show ?thesis
        by (simp split: prod.splits)
    qed
  qed
qed

text \<open>What one more cycle adds to a run of failed polls.\<close>

lemma notified_after_failed:
  assumes "list_all (poll_failed unicode get_text) fs"
  shows "notified (fst (monitor_loop unicode get_text s (fs @ [w]))) =
         notified (fst (cycle unicode get_text (s\<lparr>check_count := check_count s + int (length fs)\<rparr>) w))"
proof -
  let ?s2 = "s\<lparr>check_count := check_count s + int (length fs)\<rparr>"
  from monitor_loop_failed [OF assms, of s]
  have fs_n: "notified (fst (monitor_loop unicode get_text s fs)) = []"
    and fs_s: "snd (monitor_loop unicode get_text s fs) = Inr ?s2"
    by simp_all
  have "monitor_loop unicode get_text s (fs @ [w]) =
      (fst (monitor_loop unicode get_text s fs) @ fst (monitor_loop unicode get_text ?s2 [w]),
       snd (monitor_loop unicode get_text ?s2 [w]))"
    by (rule monitor_loop_append [OF fs_s])
  then show ?thesis
    using fs_n
    by (cases "cycle unicode get_text ?s2 w") (auto simp: notified_append split: sum.splits)
qed

text \<open>
  C4. A cycle whose poll fails sends no alert and leaves \<open>previous_status\<close> as it was.
  So when a cycle that saw the page FULL is followed by any number of cycles with failed
  polls and then by a cycle that sees the page not FULL, the run sends, after whatever
  the first of these cycles sent, exactly one alert: the FULL-to-OPEN one.
\<close>

theorem failed_polls_keep_previous_status:
  assumes "snd (check_website unicode get_text (website w1)) = Inr (Ok True opn1 snippet1)"
    and "snd (cycle unicode get_text s w1) = Inr s1"
    and "list_all (poll_failed unicode get_text) fs"
    and "snd (check_website unicode get_text (website w2)) = Inr (Ok False opn2 snippet2)"
  shows "list_all (\<lambda>f. notified (fst (cycle unicode get_text t f)) = [] \<and>
                        (\<exists>t'. snd (cycle unicode get_text t f) = Inr t' \<and>
                              previous_status t' = previous_status t)) fs \<and>
         notified (fst (monitor_loop unicode get_text s (w1 # fs @ [w2]))) =
           notified (fst (cycle unicode get_text s w1)) @ [AlertOpen]"
proof
  show "list_all (\<lambda>f. notified (fst (cycle unicode get_text t f)) = [] \<and>
                        (\<exists>t'. snd (cycle unicode get_text t f) = Inr t' \<and>
                              previous_status t' = previous_status t)) fs"
    unfolding list_all_iff
  proof
    fix f assume "f \<in> set fs"
    with assms(3) have "poll_failed unicode get_text f" by (simp add: list_all_iff)
    then obtain e where "snd (check_website unicode get_text (website f)) = Inr (Failed e)"
      by (auto dest: poll_failedD)
    then show "notified (fst (cycle unicode get_text t f)) = [] \<and>
      (\<exists>t'. snd (cycle unicode get_text t f) = Inr t' \<and> previous_status t' = previous_status t)"
      by (simp add: cycle_failed notified_check_website)
  qed
next
  from cycle_state [OF assms(2)] assms(1) have s1: "previous_status s1 = Some FULL"
    by simp
  have "notified (fst (monitor_loop unicode get_text s1 (fs @ [w2]))) = [AlertOpen]"
    using s1 assms(4) by (simp add: notified_after_failed [OF assms(3)] notified_cycle)
  then show "notified (fst (monitor_loop unicode get_text s (w1 # fs @ [w2]))) =
           notified (fst (cycle unicode get_text s w1)) @ [AlertOpen]"
    using assms(2)
    by (cases "cycle unicode get_text s w1"; cases "monitor_loop unicode get_text s1 (fs @ [w2])")
       (simp add: notified_append)
qed

theorem failed_polls_keep_previous_status_witness:
  "notified (fst (monitor_loop unicode_sample (\<lambda>t. t) \<lparr>previous_status = None, check_count = 0\<rparr>
      [world_full, world_down, world_down, world_open])) = [AlertOpen]"
proof -
  have a: "snd (check_website unicode_sample (\<lambda>t. t) (website world_full)) =
      Inr (Ok True False (lit ''AMP FREE IS FULL FOR NOW''))"
    by code_simp
  have b: "snd (cycle unicode_sample (\<lambda>t. t) \<lparr>previous_status = None, check_count = 0\<rparr> world_full) =
      Inr \<lparr>previous_status = Some FULL, check_count = 1\<rparr>"
    by code_simp
  have c: "list_all (poll_failed unicode_sample (\<lambda>t. t)) [world_down, world_down]"
    by code_simp
  have d: "snd (check_website unicode_sample (\<lambda>t. t) (website world_open)) =
      Inr (Ok False True (lit ''AMP FREE IS OPEN AGAIN''))"
    by code_simp
  have e: "notified (fst (cycle unicode_sample (\<lambda>t. t) \<lparr>previous_status = None, check_count = 0\<rparr>
      world_full)) = []"
    by code_simp
  from failed_polls_keep_previous_status [OF a b c d] e show ?thesis by simp
qed

subsection \<open>From the start of the process\<close>

lemma main_raised:
  "snd (startup unicode get_text w0) = Inl e \<Longrightarrow>
     fst (main unicode get_text w0 ws) = fst (startup unicode get_text w0)"
  by (cases "startup unicode get_text w0") (simp add: main_def)

lemma main_started:
  "snd (startup unicode get_text w0) = Inr s \<Longrightarrow>
     fst (main unicode get_text w0 ws) = fst (startup unicode get_text w0) @ fst (monitor_loop unicode get_text s ws)"
  by (cases "startup unicode get_text w0"; cases "monitor_loop unicode get_text s ws") (simp add: main_def)

text \<open>
  C8. Whether the diagnostic poll succeeded or failed, startup sends the fixed notice and
  nothing else; and through the first successful poll of the loop, whatever status it
  derives and however many failed polls came before it, the notice remains the only
  message sent: the first successful poll causes no transition alert.
\<close>

theorem first_successful_poll_sends_no_alert:
  assumes "snd (check_website unicode get_text (website w0)) = Inr r0"
    and "list_all (poll_failed unicode get_text) fs"
    and "snd (check_website unicode get_text (website w)) = Inr (Ok full opn snippet)"
  shows "notified (fst (startup unicode get_text w0)) = [MonitorActive] \<and>
         notified (fst (main unicode get_text w0 (fs @ [w]))) = [MonitorActive]"
proof
  show start: "notified (fst (startup unicode get_text w0)) = [MonitorActive]"
    using assms(1) by (rule notified_startup)
  show "notified (fst (main unicode get_text w0 (fs @ [w]))) = [MonitorActive]"
  proof (cases "snd (startup unicode get_text w0)")
    case (Inl e)
    with start show ?thesis by (simp add: main_raised)
  next
    case (Inr s)
    then have s: "s = \<lparr>previous_status = None, check_count = 0\<rparr>" by (rule startup_state)
    have "notified (fst (monitor_loop unicode get_text s (fs @ [w]))) = []"
      using s assms(3) by (simp add: notified_after_failed [OF assms(2)] notified_cycle)
    with start Inr show ?thesis by (simp add: main_started notified_append)
  qed
qed

theorem first_successful_poll_sends_no_alert_witness:
  "notified (fst (startup unicode_sample (\<lambda>t. t) world_down)) = [MonitorActive] \<and>
   notified (fst (main unicode_sample (\<lambda>t. t) world_down [world_down, world_open])) = [MonitorActive]"
proof -
  have a: "snd (check_website unicode_sample (\<lambda>t. t) (website world_down)) = Inr (Failed Timeout)"
    by code_simp
  have b: "list_all (poll_failed unicode_sample (\<lambda>t. t)) [world_down]"
    by code_simp
  have c: "snd (check_website unicode_sample (\<lambda>t. t) (website world_open)) =
      Inr (Ok False True (lit ''AMP FREE IS OPEN AGAIN''))"
    by code_simp
  from first_successful_poll_sends_no_alert [OF a b c] show ?thesis by simp
qed

end
